theory Spec2Isabelle
  imports Complex_Main "HOL-Library.Sublist" "HOL-Library.Multiset"
begin

section \<open>Data model of \<^verbatim>\<open>src/App.tsx\<close>\<close>

text \<open>
  The catalogue browser is one React component. Everything it shows is recomputed from
  the static array \<^verbatim>\<open>games\<close> and six pieces of component state. The item record is the
  interface \<^verbatim>\<open>IGame\<close>; the fields the component reads are \<^verbatim>\<open>title\<close>, \<^verbatim>\<open>genres\<close>,
  \<^verbatim>\<open>comments\<close>, \<^verbatim>\<open>image\<close> and \<^verbatim>\<open>link\<close>. Comment counts are integers.
\<close>

record IGame =
  title :: string
  genres :: string
  comments :: int
  image :: string
  link :: string

text \<open>
  The six \<^verbatim>\<open>useState\<close> cells of \<^verbatim>\<open>App\<close>, in the order of the source.
\<close>

record state =
  sortBy :: string
  currentPage :: int
  selectedTags :: "string list"
  searchQuery :: string
  tagSearchQuery :: string
  pageInputValue :: string

definition gamesPerPage :: int where
  "gamesPerPage = 12"

subsection \<open>Strings\<close>

text \<open>
  A string is a list of code units, and the model covers the code units below 256
  (Latin-1): a character is one such code unit. On these, \<^verbatim>\<open>toLowerCase\<close> maps A to Z
  to a to z and the capital letters \<open>0xC0\<close> to \<open>0xDE\<close>, but for the multiplication sign
  \<open>0xD7\<close>, to the letter 32 places further; every other character is left alone.
  \<^verbatim>\<open>includes\<close> is substring containment, true for the empty needle.
\<close>

definition upperLetters :: "char list" where
  "upperLetters =
     ''ABCDEFGHIJKLMNOPQRSTUVWXYZ'' @
     [CHR 0xC0, CHR 0xC1, CHR 0xC2, CHR 0xC3, CHR 0xC4, CHR 0xC5, CHR 0xC6, CHR 0xC7,
      CHR 0xC8, CHR 0xC9, CHR 0xCA, CHR 0xCB, CHR 0xCC, CHR 0xCD, CHR 0xCE, CHR 0xCF,
      CHR 0xD0, CHR 0xD1, CHR 0xD2, CHR 0xD3, CHR 0xD4, CHR 0xD5, CHR 0xD6] @
     [CHR 0xD8, CHR 0xD9, CHR 0xDA, CHR 0xDB, CHR 0xDC, CHR 0xDD, CHR 0xDE]"

definition lowerLetters :: "char list" where
  "lowerLetters =
     ''abcdefghijklmnopqrstuvwxyz'' @
     [CHR 0xE0, CHR 0xE1, CHR 0xE2, CHR 0xE3, CHR 0xE4, CHR 0xE5, CHR 0xE6, CHR 0xE7,
      CHR 0xE8, CHR 0xE9, CHR 0xEA, CHR 0xEB, CHR 0xEC, CHR 0xED, CHR 0xEE, CHR 0xEF,
      CHR 0xF0, CHR 0xF1, CHR 0xF2, CHR 0xF3, CHR 0xF4, CHR 0xF5, CHR 0xF6] @
     [CHR 0xF8, CHR 0xF9, CHR 0xFA, CHR 0xFB, CHR 0xFC, CHR 0xFD, CHR 0xFE]"

definition lowerChar :: "char \<Rightarrow> char" where
  "lowerChar c = (case map_of (zip upperLetters lowerLetters) c of None \<Rightarrow> c | Some d \<Rightarrow> d)"

definition toLowerCase :: "string \<Rightarrow> string" where
  "toLowerCase s = map lowerChar s"

fun includes_str :: "string \<Rightarrow> string \<Rightarrow> bool" where
  "includes_str [] t = (t = [])"
| "includes_str (c # cs) t = (prefix t (c # cs) \<or> includes_str cs t)"

subsection \<open>Filter\<close>

text \<open>
  \<^verbatim>\<open>games.filter((game) => (selectedTags.length === 0 || selectedTags.every(...)) &&
  (searchQuery ? game.title.toLowerCase().includes(searchQuery.toLowerCase()) : true))\<close>.
  A string is truthy exactly when it is not empty.
\<close>

definition every :: "('a \<Rightarrow> bool) \<Rightarrow> 'a list \<Rightarrow> bool" where
  "every p xs = list_all p xs"

definition matchesFilter :: "string list \<Rightarrow> string \<Rightarrow> IGame \<Rightarrow> bool" where
  "matchesFilter sel query game =
     ((length sel = 0 \<or> every (\<lambda>tag. includes_str (toLowerCase (genres game)) tag) sel) \<and>
      (if query \<noteq> [] then includes_str (toLowerCase (title game)) (toLowerCase query) else True))"

definition filteredGames :: "IGame list \<Rightarrow> string list \<Rightarrow> string \<Rightarrow> IGame list" where
  "filteredGames games sel query = filter (matchesFilter sel query) games"

subsection \<open>Sort\<close>

text \<open>
  \<^verbatim>\<open>Array.prototype.sort\<close> with a comparator is a stable sort. For a comparator that
  orders by a key, the stable result is unique, so the sort is modelled by stable
  insertion: an element goes in front of the first element it does not compare greater
  than, and the elements are inserted from the right.
\<close>

fun insertBy :: "('a \<Rightarrow> 'a \<Rightarrow> int) \<Rightarrow> 'a \<Rightarrow> 'a list \<Rightarrow> 'a list" where
  "insertBy cmp x [] = [x]"
| "insertBy cmp x (y # ys) = (if cmp x y \<le> 0 then x # y # ys else y # insertBy cmp x ys)"

definition sort_cmp :: "('a \<Rightarrow> 'a \<Rightarrow> int) \<Rightarrow> 'a list \<Rightarrow> 'a list" where
  "sort_cmp cmp xs = foldr (insertBy cmp) xs []"

text \<open>
  The comparator of \<^verbatim>\<open>sortedGames\<close>: \<^verbatim>\<open>a.comments - b.comments\<close> for
  \<^verbatim>\<open>"comments-asc"\<close>, \<^verbatim>\<open>b.comments - a.comments\<close> for \<^verbatim>\<open>"comments-desc"\<close>, and 0 for
  any other value of \<^verbatim>\<open>sortBy\<close>.
\<close>

definition compareGames :: "string \<Rightarrow> IGame \<Rightarrow> IGame \<Rightarrow> int" where
  "compareGames sb a b =
     (if sb = ''comments-asc'' then comments a - comments b
      else if sb = ''comments-desc'' then comments b - comments a
      else 0)"

definition sortedGames :: "IGame list \<Rightarrow> string \<Rightarrow> IGame list" where
  "sortedGames filtered sb = sort_cmp (compareGames sb) filtered"

subsection \<open>Paginate\<close>

text \<open>
  \<^verbatim>\<open>Array.prototype.slice(start, end)\<close>: a negative index counts from the end, both
  indices are clamped into the array, and an empty range gives the empty array.
\<close>

definition slice :: "'a list \<Rightarrow> int \<Rightarrow> int \<Rightarrow> 'a list" where
  "slice xs start fin =
     (let len = int (length xs);
          k = (if start < 0 then max (len + start) 0 else min start len);
          final = (if fin < 0 then max (len + fin) 0 else min fin len)
      in take (nat (max (final - k) 0)) (drop (nat k) xs))"

definition currentGames :: "'a list \<Rightarrow> int \<Rightarrow> 'a list" where
  "currentGames sortedList cp =
     (let indexOfLastGame = cp * gamesPerPage;
          indexOfFirstGame = indexOfLastGame - gamesPerPage
      in slice sortedList indexOfFirstGame indexOfLastGame)"

text \<open>\<^verbatim>\<open>Math.ceil(sortedGames.length / gamesPerPage)\<close>, the division being that of numbers.\<close>

definition totalPages :: "'a list \<Rightarrow> int" where
  "totalPages sortedList = \<lceil>real (length sortedList) / real_of_int gamesPerPage\<rceil>"

subsection \<open>Tag toggle\<close>

text \<open>
  \<^verbatim>\<open>prev.includes(tag) ? prev.filter((t) => t !== tag) : [...prev, tag]\<close>
\<close>

definition toggleTag :: "string list \<Rightarrow> string \<Rightarrow> string list" where
  "toggleTag prev tag = (if tag \<in> set prev then filter (\<lambda>t. t \<noteq> tag) prev else prev @ [tag])"

subsection \<open>Page jump\<close>

text \<open>
  \<^verbatim>\<open>parseInt(s, 10)\<close> skips leading white space, reads an optional sign and then the
  longest run of decimal digits; with no digit the result is \<^verbatim>\<open>NaN\<close>, here \<open>None\<close>.
  What follows the digits is ignored. The white space below code unit 256 is tab, line
  feed, vertical tab, form feed, carriage return, space and the no-break space \<open>0xA0\<close>. The value is kept exact: the handler only
  compares it with 1 and with the page count, and rounding a numeral of more than
  fifteen digits to a double does not change those comparisons.
\<close>

definition isWhiteSpace :: "char \<Rightarrow> bool" where
  "isWhiteSpace c =
     (c \<in> set [CHR 0x09, CHR 0x0A, CHR 0x0B, CHR 0x0C, CHR 0x0D, CHR 0x20, CHR 0xA0])"

definition digitVal :: "char \<Rightarrow> int option" where
  "digitVal c = map_of (zip ''0123456789'' [0, 1, 2, 3, 4, 5, 6, 7, 8, 9]) c"

definition isDigit :: "char \<Rightarrow> bool" where
  "isDigit c = (digitVal c \<noteq> None)"

definition digitsValue :: "string \<Rightarrow> int" where
  "digitsValue z = foldl (\<lambda>acc c. 10 * acc + (case digitVal c of None \<Rightarrow> 0 | Some d \<Rightarrow> d)) 0 z"

definition parseInt :: "string \<Rightarrow> int option" where
  "parseInt s =
     (let t = dropWhile isWhiteSpace s;
          negative = (case t of [] \<Rightarrow> False | c # _ \<Rightarrow> c = CHR ''-'');
          u = (case t of [] \<Rightarrow> [] | c # cs \<Rightarrow> if c = CHR ''+'' \<or> c = CHR ''-'' then cs else t);
          z = takeWhile isDigit u
      in if z = [] then None
         else Some ((if negative then - 1 else 1) * digitsValue z))"

text \<open>
  \<^verbatim>\<open>handlePageInputSubmit\<close>, given the page count of the current render:
  \<^verbatim>\<open>if (!isNaN(pageNumber) && pageNumber >= 1 && pageNumber <= totalPages)
  setCurrentPage(pageNumber); else setPageInputValue("");\<close>
\<close>

definition handlePageInputSubmit :: "int \<Rightarrow> state \<Rightarrow> state" where
  "handlePageInputSubmit tp st =
     (case parseInt (pageInputValue st) of
        None \<Rightarrow> st\<lparr>pageInputValue := []\<rparr>
      | Some pageNumber \<Rightarrow>
          if pageNumber \<ge> 1 \<and> pageNumber \<le> tp then st\<lparr>currentPage := pageNumber\<rparr>
          else st\<lparr>pageInputValue := []\<rparr>)"

subsection \<open>Page-number display list\<close>

datatype pageItem = Num int | Ellipsis

definition maxPagesToShow :: int where
  "maxPagesToShow = 5"

text \<open>The loop \<^verbatim>\<open>for (let i = lo; i <= hi; i++) pageNumbers.push(i)\<close>.\<close>

function pushRange :: "int \<Rightarrow> int \<Rightarrow> pageItem list \<Rightarrow> pageItem list" where
  "pushRange i hi acc = (if i \<le> hi then pushRange (i + 1) hi (acc @ [Num i]) else acc)"
  by pat_completeness auto
termination
  by (relation "measure (\<lambda>(i, hi, acc). nat (hi + 1 - i))") auto

declare pushRange.simps [simp del]

text \<open>
  The middle window: \<^verbatim>\<open>startPage\<close> after the adjustment, and \<^verbatim>\<open>endPage\<close>.
  \<^verbatim>\<open>Math.floor((maxPagesToShow - 2) / 2)\<close> is integer division.
\<close>

definition pageWindow :: "int \<Rightarrow> int \<Rightarrow> int \<times> int" where
  "pageWindow tp cp =
     (let startPage = max (cp - (maxPagesToShow - 2) div 2) 2;
          endPage = min (startPage + maxPagesToShow - 3) (tp - 1);
          startPage' =
            (if endPage - startPage < maxPagesToShow - 3
             then max (endPage - (maxPagesToShow - 3) + 1) 2
             else startPage)
      in (startPage', endPage))"

definition getPageNumbers :: "int \<Rightarrow> int \<Rightarrow> pageItem list" where
  "getPageNumbers tp cp =
     (if tp \<le> maxPagesToShow then pushRange 1 tp []
      else
        (let (startPage, endPage) = pageWindow tp cp;
             p1 = [Num 1];
             p2 = (if startPage > 2 then p1 @ [Ellipsis] else p1);
             p3 = pushRange startPage endPage p2;
             p4 = (if endPage < tp - 1 then p3 @ [Ellipsis] else p3)
         in p4 @ [Num tp]))"

subsection \<open>Tag list\<close>

text \<open>
  \<^verbatim>\<open>s.split(", ")\<close>: the pieces of \<open>s\<close> between the occurrences of a comma followed by
  a space, read from the left; the empty string gives one empty piece.
\<close>

fun splitGo :: "string \<Rightarrow> string \<Rightarrow> string list" where
  "splitGo [] cur = [cur]"
| "splitGo [c] cur = [cur @ [c]]"
| "splitGo (c # d # ds) cur =
     (if c = CHR '','' \<and> d = CHR '' '' then cur # splitGo ds []
      else splitGo (d # ds) (cur @ [c]))"

definition splitCommaSpace :: "string \<Rightarrow> string list" where
  "splitCommaSpace s = splitGo s []"

text \<open>
  \<^verbatim>\<open>Array.from(new Set(xs))\<close>: a set keeps one copy of each value, in the order of the
  first insertions.
\<close>

definition setFrom :: "'a list \<Rightarrow> 'a list" where
  "setFrom xs = foldl (\<lambda>acc x. if x \<in> set acc then acc else acc @ [x]) [] xs"

text \<open>
  \<^verbatim>\<open>const genres = Array.from(new Set(games.map((game) =>
  game.genres.toLowerCase().split(", ")).flat())).filter((str) => str !== "2014" && str !== "")\<close>
\<close>

definition genres_list :: "IGame list \<Rightarrow> string list" where
  "genres_list games =
     filter (\<lambda>str. str \<noteq> ''2014'' \<and> str \<noteq> [])
       (setFrom (concat (map (\<lambda>game. splitCommaSpace (toLowerCase (genres game))) games)))"

text \<open>
  The object \<^verbatim>\<open>frequencyMap\<close> is an association list in the order in which its keys
  were created. \<^verbatim>\<open>acc[val] = (acc[val] || 0) + 1\<close> reads a missing key as 0. Keys are
  taken not to be \<^verbatim>\<open>constructor\<close> or \<^verbatim>\<open>__proto__\<close>, the two lowercase names that every
  object inherits: for these the code reads the inherited value, not a missing key.
\<close>

definition objSet :: "(string \<times> int) list \<Rightarrow> string \<Rightarrow> int \<Rightarrow> (string \<times> int) list" where
  "objSet obj k v =
     (if k \<in> fst ` set obj then map (\<lambda>(k', v'). if k' = k then (k', v) else (k', v')) obj
      else obj @ [(k, v)])"

definition frequencyMap :: "string list \<Rightarrow> (string \<times> int) list" where
  "frequencyMap gs =
     foldl (\<lambda>acc val. objSet acc val ((case map_of acc val of None \<Rightarrow> 0 | Some n \<Rightarrow> n) + 1)) [] gs"

text \<open>
  \<^verbatim>\<open>Object.entries\<close> lists first the keys that are array indices (canonical decimal
  numerals below \<open>2^32 - 1\<close>), by ascending value, then the other keys in creation
  order.
\<close>

definition isArrayIndex :: "string \<Rightarrow> bool" where
  "isArrayIndex k =
     (k \<noteq> [] \<and> list_all isDigit k \<and> (k = ''0'' \<or> hd k \<noteq> CHR ''0'') \<and>
      digitsValue k < 2 ^ 32 - 1)"

definition objectEntries :: "(string \<times> int) list \<Rightarrow> (string \<times> int) list" where
  "objectEntries obj =
     sort_key (\<lambda>e. digitsValue (fst e)) (filter (\<lambda>e. isArrayIndex (fst e)) obj) @
     filter (\<lambda>e. \<not> isArrayIndex (fst e)) obj"

text \<open>
  \<^verbatim>\<open>Object.entries(frequencyMap).sort((a, b) => b[1] - a[1])\<close> and
  \<^verbatim>\<open>sortedByFrequency.slice(0, sortedByFrequency.length).map((entry) => entry[0])\<close>
\<close>

definition sortedByFrequency :: "IGame list \<Rightarrow> (string \<times> int) list" where
  "sortedByFrequency games =
     sort_cmp (\<lambda>a b. snd b - snd a) (objectEntries (frequencyMap (genres_list games)))"

definition tags :: "IGame list \<Rightarrow> string list" where
  "tags games =
     map fst (slice (sortedByFrequency games) 0 (int (length (sortedByFrequency games))))"

text \<open>
  \<^verbatim>\<open>tags.filter((tag) => tag.toLowerCase().includes(tagSearchQuery.toLowerCase()))\<close>
\<close>

definition filteredTags :: "IGame list \<Rightarrow> string \<Rightarrow> string list" where
  "filteredTags games tq =
     filter (\<lambda>tag. includes_str (toLowerCase tag) (toLowerCase tq)) (tags games)"

subsection \<open>The component as a transition system\<close>

text \<open>
  What a render derives from the array and the state.
\<close>

definition sortedOf :: "IGame list \<Rightarrow> state \<Rightarrow> IGame list" where
  "sortedOf games st =
     sortedGames (filteredGames games (selectedTags st) (searchQuery st)) (sortBy st)"

definition totalPagesOf :: "IGame list \<Rightarrow> state \<Rightarrow> int" where
  "totalPagesOf games st = totalPages (sortedOf games st)"

definition currentGamesOf :: "IGame list \<Rightarrow> state \<Rightarrow> IGame list" where
  "currentGamesOf games st = currentGames (sortedOf games st) (currentPage st)"

text \<open>
  The pagination controls (previous, numbered buttons, next, the page-jump form) are
  rendered only when \<^verbatim>\<open>currentGames.length > 0\<close>.
\<close>

definition paginationShown :: "IGame list \<Rightarrow> state \<Rightarrow> bool" where
  "paginationShown games st = (length (currentGamesOf games st) > 0)"

definition paginate :: "state \<Rightarrow> int \<Rightarrow> state" where
  "paginate st pageNumber = st\<lparr>currentPage := pageNumber\<rparr>"

definition initialState :: state where
  "initialState =
     \<lparr>sortBy = ''comments-desc'', currentPage = 1, selectedTags = [], searchQuery = [],
      tagSearchQuery = [], pageInputValue = []\<rparr>"

text \<open>
  The user's events. A tag is toggled through its checkbox, which exists for the tags of
  the filtered tag list; a numbered button is the entry at an index of the page-number
  list and an ellipsis is not a button; the previous and next buttons are disabled on
  page 1 and on the last page. An event that the rendered page does not offer gives
  \<open>None\<close>.
\<close>

datatype event =
    SetSortBy string
  | SetSearchQuery string
  | SetTagSearchQuery string
  | ToggleTag string
  | ClearFilters
  | PrevPage
  | NextPage
  | ClickPage nat
  | SetPageInputValue string
  | SubmitPageInput

fun handler :: "IGame list \<Rightarrow> state \<Rightarrow> event \<Rightarrow> state option" where
  "handler games st (SetSortBy v) = Some (st\<lparr>sortBy := v\<rparr>)"
| "handler games st (SetSearchQuery v) = Some (st\<lparr>searchQuery := v\<rparr>)"
| "handler games st (SetTagSearchQuery v) = Some (st\<lparr>tagSearchQuery := v\<rparr>)"
| "handler games st (ToggleTag tag) =
     (if tag \<in> set (filteredTags games (tagSearchQuery st))
      then Some (st\<lparr>selectedTags := toggleTag (selectedTags st) tag\<rparr>)
      else None)"
| "handler games st ClearFilters = Some (st\<lparr>tagSearchQuery := [], selectedTags := []\<rparr>)"
| "handler games st PrevPage =
     (if paginationShown games st \<and> currentPage st \<noteq> 1
      then Some (paginate st (currentPage st - 1))
      else None)"
| "handler games st NextPage =
     (if paginationShown games st \<and> currentPage st \<noteq> totalPagesOf games st
      then Some (paginate st (currentPage st + 1))
      else None)"
| "handler games st (ClickPage i) =
     (let pageNumbers = getPageNumbers (totalPagesOf games st) (currentPage st)
      in if paginationShown games st \<and> i < length pageNumbers
         then (case pageNumbers ! i of Num p \<Rightarrow> Some (paginate st p) | Ellipsis \<Rightarrow> None)
         else None)"
| "handler games st (SetPageInputValue v) =
     (if paginationShown games st then Some (st\<lparr>pageInputValue := v\<rparr>) else None)"
| "handler games st SubmitPageInput =
     (if paginationShown games st
      then Some (handlePageInputSubmit (totalPagesOf games st) st)
      else None)"

text \<open>
  \<^verbatim>\<open>useEffect(() => { setCurrentPage(1); }, [selectedTags, searchQuery, sortBy])\<close> runs
  after a render in which one of the three dependencies is not identical to its value
  in the render before. The two strings are compared by value. \<^verbatim>\<open>selectedTags\<close> is an
  array, compared by identity: \<^verbatim>\<open>toggleTag\<close> and the Clear Filters button always store
  a new array, so the effect runs after them whatever the array holds. A transition is
  the handler followed by this effect; no event of the user comes between the two.
\<close>

definition depsChanged :: "state \<Rightarrow> event \<Rightarrow> state \<Rightarrow> bool" where
  "depsChanged old ev new =
     ((case ev of ToggleTag _ \<Rightarrow> True | ClearFilters \<Rightarrow> True | _ \<Rightarrow> False) \<or>
      searchQuery new \<noteq> searchQuery old \<or> sortBy new \<noteq> sortBy old)"

definition resetEffect :: "state \<Rightarrow> event \<Rightarrow> state \<Rightarrow> state" where
  "resetEffect old ev new = (if depsChanged old ev new then new\<lparr>currentPage := 1\<rparr> else new)"

definition step :: "IGame list \<Rightarrow> state \<Rightarrow> event \<Rightarrow> state option" where
  "step games st ev = map_option (resetEffect st ev) (handler games st ev)"

inductive reachable :: "IGame list \<Rightarrow> state \<Rightarrow> bool" for games :: "IGame list" where
  reachable_init: "reachable games initialState"
| reachable_step: "reachable games st \<Longrightarrow> step games st ev = Some st' \<Longrightarrow> reachable games st'"

section \<open>Properties\<close>

lemma includes_sublist: "includes_str s t = sublist t s"
  by (induction s) (auto simp: sublist_Cons_right)

text \<open>
  C1. An item is in the filtered result exactly when it is an item of the array and
  (no tag is selected or every selected tag is a substring of its lowercased genre
  field) and (the search query is empty or its lowercased title contains the lowercased
  query). Substring containment is stated with the library's \<open>sublist\<close>.
\<close>

theorem filteredGames_iff:
  "g \<in> set (filteredGames games sel query) \<longleftrightarrow>
     g \<in> set games \<and>
     (sel = [] \<or> (\<forall>tag \<in> set sel. sublist tag (toLowerCase (genres g)))) \<and>
     (query = [] \<or> sublist (toLowerCase query) (toLowerCase (title g)))"
  by (auto simp: filteredGames_def matchesFilter_def every_def list_all_iff includes_sublist)

theorem filteredGames_iff_witness:
  "\<lparr>title = ''Doom'', genres = ''Action, Shooter'', comments = 5, image = [], link = []\<rparr>
     \<in> set (filteredGames
        [\<lparr>title = ''Doom'', genres = ''Action, Shooter'', comments = 5, image = [], link = []\<rparr>,
         \<lparr>title = ''Myst'', genres = ''Puzzle'', comments = 9, image = [], link = []\<rparr>]
        [''action'', ''shoot''] ''DO'') \<and>
   \<lparr>title = ''Myst'', genres = ''Puzzle'', comments = 9, image = [], link = []\<rparr>
     \<notin> set (filteredGames
        [\<lparr>title = ''Doom'', genres = ''Action, Shooter'', comments = 5, image = [], link = []\<rparr>,
         \<lparr>title = ''Myst'', genres = ''Puzzle'', comments = 9, image = [], link = []\<rparr>]
        [''action'', ''shoot''] ''DO'')"
  unfolding filteredGames_iff
  by (simp add: includes_sublist [symmetric] toLowerCase_def lowerChar_def upperLetters_def lowerLetters_def)

subsection \<open>Sorting\<close>

lemma insertBy_asc: "insertBy (\<lambda>a b. f a - f b) x ys = insort_key f x ys" for f :: "'a \<Rightarrow> int"
  by (induction ys) auto

lemma insertBy_desc: "insertBy (\<lambda>a b. f b - f a) x ys = insort_key (\<lambda>a. - f a) x ys" for f :: "'a \<Rightarrow> int"
  by (induction ys) auto

lemma insertBy_const: "insertBy (\<lambda>a b. 0) x ys = x # ys"
  by (cases ys) auto

lemma sort_cmp_asc: "sort_cmp (\<lambda>a b. f a - f b) xs = sort_key f xs" for f :: "'a \<Rightarrow> int"
  by (simp add: sort_cmp_def sort_key_def insertBy_asc [abs_def])

lemma sort_cmp_desc: "sort_cmp (\<lambda>a b. f b - f a) xs = sort_key (\<lambda>a. - f a) xs" for f :: "'a \<Rightarrow> int"
  by (simp add: sort_cmp_def sort_key_def insertBy_desc [abs_def])

lemma sort_cmp_const: "sort_cmp (\<lambda>a b. 0) xs = xs"
  by (induction xs) (simp_all add: sort_cmp_def insertBy_const)

lemma sortedGames_asc: "sortedGames xs ''comments-asc'' = sort_key comments xs"
  by (simp add: sortedGames_def compareGames_def [abs_def] sort_cmp_asc)

lemma sortedGames_desc: "sortedGames xs ''comments-desc'' = sort_key (\<lambda>g. - comments g) xs"
  by (simp add: sortedGames_def compareGames_def [abs_def] sort_cmp_desc)

lemma sortedGames_other:
  "sb \<noteq> ''comments-asc'' \<Longrightarrow> sb \<noteq> ''comments-desc'' \<Longrightarrow> sortedGames xs sb = xs"
  by (simp add: sortedGames_def compareGames_def [abs_def] sort_cmp_const)

lemma length_sortedGames: "length (sortedGames xs sb) = length xs"
  by (cases "sb = ''comments-asc''"; cases "sb = ''comments-desc''")
     (simp_all add: sortedGames_asc sortedGames_desc sortedGames_other)

lemma sorted_desc: "sorted (rev (map comments (sortedGames xs ''comments-desc'')))"
proof -
  have "sorted (map (\<lambda>g. - comments g) (sortedGames xs ''comments-desc''))"
    unfolding sortedGames_desc by (rule sorted_sort_key)
  then show ?thesis
    by (simp add: sorted_wrt_map sorted_wrt_rev rev_map [symmetric])
qed

lemma sorted_asc: "sorted (map comments (sortedGames xs ''comments-asc''))"
  unfolding sortedGames_asc by (rule sorted_sort_key)

lemma stable_asc:
  "filter (\<lambda>g. comments g = k) (sortedGames xs ''comments-asc'') = filter (\<lambda>g. comments g = k) xs"
  unfolding sortedGames_asc by (rule sort_key_stable)

lemma stable_desc:
  "filter (\<lambda>g. comments g = k) (sortedGames xs ''comments-desc'') = filter (\<lambda>g. comments g = k) xs"
proof -
  have "filter (\<lambda>g. - comments g = - k) (sort_key (\<lambda>g. - comments g) xs) =
        filter (\<lambda>g. - comments g = - k) xs"
    by (rule sort_key_stable)
  then show ?thesis by (simp add: sortedGames_desc)
qed

lemma mset_sortedGames: "mset (sortedGames xs sb) = mset xs"
  by (cases "sb = ''comments-asc''"; cases "sb = ''comments-desc''")
     (simp_all add: sortedGames_asc sortedGames_desc sortedGames_other)

lemma desc_rev_asc:
  assumes "distinct (map comments xs)"
  shows "sortedGames xs ''comments-desc'' = rev (sortedGames xs ''comments-asc'')"
proof (rule map_sorted_distinct_set_unique [where f = "\<lambda>g. - comments g"])
  have inj: "inj_on comments (set xs)" and dxs: "distinct xs"
    using assms by (simp_all add: distinct_map)
  have sets: "set (sortedGames xs ''comments-desc'') = set xs"
    "set (sortedGames xs ''comments-asc'') = set xs"
    by (simp_all add: sortedGames_asc sortedGames_desc)
  show "inj_on (\<lambda>g. - comments g)
      (set (sortedGames xs ''comments-desc'') \<union> set (rev (sortedGames xs ''comments-asc'')))"
    using inj by (auto simp: sets inj_on_def)
  show "sorted (map (\<lambda>g. - comments g) (sortedGames xs ''comments-desc''))"
    unfolding sortedGames_desc by (rule sorted_sort_key)
  show "sorted (map (\<lambda>g. - comments g) (rev (sortedGames xs ''comments-asc'')))"
    using sorted_asc [of xs] by (simp add: sorted_wrt_map sorted_wrt_rev)
  have "mset (map (\<lambda>g. - comments g) (sortedGames xs ''comments-desc'')) =
        mset (map (\<lambda>g. - comments g) xs)"
    by (simp add: mset_sortedGames)
  moreover have "distinct (map (\<lambda>g. - comments g) xs)"
    using inj dxs by (auto simp: distinct_map inj_on_def)
  ultimately show "distinct (map (\<lambda>g. - comments g) (sortedGames xs ''comments-desc''))"
    by (metis mset_eq_imp_distinct_iff)
  have "mset (map (\<lambda>g. - comments g) (rev (sortedGames xs ''comments-asc''))) =
        mset (map (\<lambda>g. - comments g) xs)"
    by (simp add: mset_sortedGames)
  with \<open>distinct (map (\<lambda>g. - comments g) xs)\<close>
  show "distinct (map (\<lambda>g. - comments g) (rev (sortedGames xs ''comments-asc'')))"
    by (metis mset_eq_imp_distinct_iff)
  show "set (sortedGames xs ''comments-desc'') = set (rev (sortedGames xs ''comments-asc''))"
    by (simp add: sets)
qed

text \<open>
  C5. Both sort directions permute the filtered list. Ascending puts the comment counts
  in nondecreasing order and descending in nonincreasing order, so two items with
  different counts stand in opposite orders in the two results. Items with one and the
  same count keep the order they have in the filtered list, in both directions: the two
  results are reverses of each other only when no two counts are equal.
\<close>

theorem sort_directions:
  "mset (sortedGames xs ''comments-asc'') = mset xs \<and>
   mset (sortedGames xs ''comments-desc'') = mset xs \<and>
   sorted (map comments (sortedGames xs ''comments-asc'')) \<and>
   sorted (rev (map comments (sortedGames xs ''comments-desc''))) \<and>
   (\<forall>k. filter (\<lambda>g. comments g = k) (sortedGames xs ''comments-asc'') =
        filter (\<lambda>g. comments g = k) xs) \<and>
   (\<forall>k. filter (\<lambda>g. comments g = k) (sortedGames xs ''comments-desc'') =
        filter (\<lambda>g. comments g = k) xs) \<and>
   (distinct (map comments xs) \<longrightarrow>
      sortedGames xs ''comments-desc'' = rev (sortedGames xs ''comments-asc''))"
  using mset_sortedGames sorted_asc sorted_desc stable_asc stable_desc desc_rev_asc by blast

theorem sort_directions_witness:
  "sortedGames
     [\<lparr>title = ''a'', genres = [], comments = 1, image = [], link = []\<rparr>,
      \<lparr>title = ''b'', genres = [], comments = 3, image = [], link = []\<rparr>,
      \<lparr>title = ''c'', genres = [], comments = 1, image = [], link = []\<rparr>] ''comments-asc'' =
     [\<lparr>title = ''a'', genres = [], comments = 1, image = [], link = []\<rparr>,
      \<lparr>title = ''c'', genres = [], comments = 1, image = [], link = []\<rparr>,
      \<lparr>title = ''b'', genres = [], comments = 3, image = [], link = []\<rparr>] \<and>
   sortedGames
     [\<lparr>title = ''a'', genres = [], comments = 1, image = [], link = []\<rparr>,
      \<lparr>title = ''b'', genres = [], comments = 3, image = [], link = []\<rparr>,
      \<lparr>title = ''c'', genres = [], comments = 1, image = [], link = []\<rparr>] ''comments-desc'' =
     [\<lparr>title = ''b'', genres = [], comments = 3, image = [], link = []\<rparr>,
      \<lparr>title = ''a'', genres = [], comments = 1, image = [], link = []\<rparr>,
      \<lparr>title = ''c'', genres = [], comments = 1, image = [], link = []\<rparr>] \<and>
   distinct (map comments
     [\<lparr>title = ''a'', genres = [], comments = 1, image = [], link = []\<rparr>,
      \<lparr>title = ''b'', genres = [], comments = 3, image = [], link = []\<rparr>]) \<and>
   sortedGames
     [\<lparr>title = ''a'', genres = [], comments = 1, image = [], link = []\<rparr>,
      \<lparr>title = ''b'', genres = [], comments = 3, image = [], link = []\<rparr>] ''comments-desc'' =
   rev (sortedGames
     [\<lparr>title = ''a'', genres = [], comments = 1, image = [], link = []\<rparr>,
      \<lparr>title = ''b'', genres = [], comments = 3, image = [], link = []\<rparr>] ''comments-asc'')"
proof -
  have "sortedGames
     [\<lparr>title = ''a'', genres = [], comments = 1, image = [], link = []\<rparr>,
      \<lparr>title = ''b'', genres = [], comments = 3, image = [], link = []\<rparr>] ''comments-desc'' =
   rev (sortedGames
     [\<lparr>title = ''a'', genres = [], comments = 1, image = [], link = []\<rparr>,
      \<lparr>title = ''b'', genres = [], comments = 3, image = [], link = []\<rparr>] ''comments-asc'')"
    using sort_directions
      [of "[\<lparr>title = ''a'', genres = [], comments = 1, image = [], link = []\<rparr>,
            \<lparr>title = ''b'', genres = [], comments = 3, image = [], link = []\<rparr>]"]
    by simp
  then show ?thesis
    by (simp add: sortedGames_def sort_cmp_def compareGames_def)
qed

subsection \<open>Pagination\<close>

lemma totalPages_div: "totalPages xs = (int (length xs) + 11) div 12"
proof -
  have "totalPages xs = \<lceil>real_of_int (int (length xs)) / real_of_int 12\<rceil>"
    by (simp add: totalPages_def gamesPerPage_def)
  also have "\<dots> = - (- int (length xs) div 12)"
    by (rule ceiling_divide_eq_div)
  also have "\<dots> = (int (length xs) + 11) div 12"
    by linarith
  finally show ?thesis .
qed

lemma take_min_length: "take (min n (length ys)) ys = take n ys"
  by (cases "n \<le> length ys") (simp_all add: min_def)

lemma currentGames_take_drop:
  assumes "1 \<le> N"
  shows "currentGames xs N = take 12 (drop (nat ((N - 1) * 12)) xs)"
proof -
  define s where "s = nat ((N - 1) * 12)"
  have s: "(N - 1) * 12 = int s" and e: "N * 12 = int s + 12"
    using assms by (simp_all add: s_def algebra_simps)
  have cg: "currentGames xs N = slice xs (int s) (int s + 12)"
    using s e by (simp add: currentGames_def gamesPerPage_def Let_def)
  show ?thesis
  proof (cases "s \<le> length xs")
    case True
    then have "slice xs (int s) (int s + 12) = take (min 12 (length (drop s xs))) (drop s xs)"
      by (auto simp: slice_def Let_def min_def max_def intro!: arg_cong2 [where f = take])
    then show ?thesis
      using cg by (simp only: take_min_length s_def)
  next
    case False
    then have "slice xs (int s) (int s + 12) = []" and "drop s xs = []"
      by (simp_all add: slice_def Let_def)
    then show ?thesis
      using cg by (simp add: s_def)
  qed
qed

lemma length_currentGames: "length (currentGames xs cp) \<le> 12"
  by (auto simp: currentGames_def slice_def gamesPerPage_def Let_def min_def max_def)

lemma currentGames_beyond: "int (length xs) \<le> (cp - 1) * 12 \<Longrightarrow> currentGames xs cp = []"
  by (auto simp: currentGames_def slice_def gamesPerPage_def Let_def min_def max_def
      algebra_simps)

text \<open>
  C2. For a list \<open>xs\<close> of \<open>n\<close> items and a page number \<open>N \<ge> 1\<close>, the visible page is the
  slice of \<open>xs\<close> from index \<open>(N - 1) * 12\<close> up to, not including, index \<open>N * 12\<close>: it is
  \<open>take 12\<close> of \<open>xs\<close> without its first \<open>(N - 1) * 12\<close> items, so its \<open>j\<close>-th item is
  item \<open>(N - 1) * 12 + j\<close> of \<open>xs\<close> and it stops at index \<open>N * 12\<close> or at the end of \<open>xs\<close>.
  The page count is the ceiling of \<open>n / 12\<close>: the least \<open>k\<close> with \<open>n \<le> 12 * k\<close>; it
  is 0 when \<open>n\<close> is 0.
\<close>

theorem page_is_slice_and_count_is_ceiling:
  assumes "1 \<le> N"
  shows "currentGames xs N = take 12 (drop (nat ((N - 1) * 12)) xs) \<and>
         length (currentGames xs N) = min 12 (length xs - nat ((N - 1) * 12)) \<and>
         (\<forall>j < length (currentGames xs N).
            currentGames xs N ! j = xs ! (nat ((N - 1) * 12) + j)) \<and>
         totalPages xs = (int (length xs) + 11) div 12 \<and>
         int (length xs) \<le> 12 * totalPages xs \<and>
         12 * totalPages xs < int (length xs) + 12 \<and>
         (length xs = 0 \<longrightarrow> totalPages xs = 0)"
proof -
  have cg: "currentGames xs N = take 12 (drop (nat ((N - 1) * 12)) xs)"
    using assms by (rule currentGames_take_drop)
  have len: "length (currentGames xs N) = min 12 (length xs - nat ((N - 1) * 12))"
    by (simp add: cg min.commute)
  have nth: "\<forall>j < length (currentGames xs N).
      currentGames xs N ! j = xs ! (nat ((N - 1) * 12) + j)"
    unfolding cg by auto
  have tp: "totalPages xs = (int (length xs) + 11) div 12"
    by (rule totalPages_div)
  have lo: "int (length xs) \<le> 12 * totalPages xs"
    and hi: "12 * totalPages xs < int (length xs) + 12"
    unfolding tp by linarith+
  have zero: "length xs = 0 \<longrightarrow> totalPages xs = 0"
    unfolding tp by auto
  from cg len nth tp lo hi zero show ?thesis by blast
qed

theorem page_is_slice_and_count_is_ceiling_witness:
  "(1::int) \<le> 2 \<and>
   currentGames [1, 2, 3, 4, 5, 6, 7, 8, 9, 10, 11, 12, 13, 14 :: nat] 2 = [13, 14] \<and>
   totalPages [1, 2, 3, 4, 5, 6, 7, 8, 9, 10, 11, 12, 13, 14 :: nat] = 2 \<and>
   totalPages ([] :: nat list) = 0"
  using page_is_slice_and_count_is_ceiling
    [of 2 "[1, 2, 3, 4, 5, 6, 7, 8, 9, 10, 11, 12, 13, 14 :: nat]"]
    page_is_slice_and_count_is_ceiling [of 1 "[] :: nat list"]
  by simp

text \<open>
  C10. Whatever the page number (an integer, also 0 or negative), the visible page has
  at most 12 items, and when \<open>(currentPage - 1) * 12\<close> is at or beyond the number of
  items (as for any page of an empty result) the visible page is the empty list. The
  slice is a total function: it has a value for every list and every pair of indices.
\<close>

theorem visible_page_bounded_and_total:
  "length (currentGames xs cp) \<le> 12 \<and>
   (int (length xs) \<le> (cp - 1) * 12 \<longrightarrow> currentGames xs cp = [])"
  using length_currentGames [of xs cp] currentGames_beyond [of xs cp] by blast

theorem visible_page_bounded_and_total_witness:
  "length (currentGames [1, 2, 3, 4, 5, 6, 7, 8, 9, 10, 11, 12, 13, 14 :: nat] 1) \<le> 12 \<and>
   int (length [1, 2, 3, 4, 5, 6, 7, 8, 9, 10, 11, 12, 13, 14 :: nat]) \<le> (3 - 1) * 12 \<and>
   currentGames [1, 2, 3, 4, 5, 6, 7, 8, 9, 10, 11, 12, 13, 14 :: nat] 3 = [] \<and>
   currentGames ([] :: nat list) 1 = []"
  using visible_page_bounded_and_total [of "[1, 2, 3, 4, 5, 6, 7, 8, 9, 10, 11, 12, 13, 14 :: nat]" 1]
    visible_page_bounded_and_total [of "[1, 2, 3, 4, 5, 6, 7, 8, 9, 10, 11, 12, 13, 14 :: nat]" 3]
    visible_page_bounded_and_total [of "[] :: nat list" 1]
  by simp

lemma length_sortedOf:
  "length (sortedOf games st) = length (filteredGames games (selectedTags st) (searchQuery st))"
  by (simp add: sortedOf_def length_sortedGames)

lemma totalPagesOf_eq:
  "totalPagesOf games st =
     (int (length (filteredGames games (selectedTags st) (searchQuery st))) + 11) div 12"
  by (simp add: totalPagesOf_def totalPages_div length_sortedOf)

subsection \<open>Page jump\<close>

lemma isDigit_cases: "isDigit c \<longleftrightarrow> c \<in> set ''0123456789''"
  by (auto simp: isDigit_def digitVal_def)

lemma isDigit_plain: "isDigit c \<Longrightarrow> \<not> isWhiteSpace c \<and> c \<noteq> CHR ''+'' \<and> c \<noteq> CHR ''-''"
  by (auto simp: isDigit_cases isWhiteSpace_def)

lemma parseInt_digits:
  assumes "z \<noteq> []" "list_all isDigit z"
  shows "parseInt z = Some (digitsValue z)"
proof -
  obtain c cs where z: "z = c # cs"
    using assms(1) by (cases z) auto
  have c: "\<not> isWhiteSpace c" "c \<noteq> CHR ''+''" "c \<noteq> CHR ''-''"
    using assms(2) isDigit_plain [of c] by (simp_all add: z)
  have tw: "takeWhile isDigit z = z"
    using assms(2) by (simp add: takeWhile_eq_all_conv list_all_iff)
  have dw: "dropWhile isWhiteSpace z = z"
    using c by (simp add: z)
  show ?thesis
    unfolding parseInt_def dw using c tw assms(1) by (simp add: z Let_def)
qed

lemma submit_rejected:
  "parseInt (pageInputValue st) = None \<or>
   (\<exists>n. parseInt (pageInputValue st) = Some n \<and> (n < 1 \<or> tp < n)) \<Longrightarrow>
   handlePageInputSubmit tp st = st\<lparr>pageInputValue := []\<rparr>"
  by (auto simp: handlePageInputSubmit_def)

lemma submit_accepted:
  "parseInt (pageInputValue st) = Some n \<Longrightarrow> 1 \<le> n \<Longrightarrow> n \<le> tp \<Longrightarrow>
   handlePageInputSubmit tp st = st\<lparr>currentPage := n\<rparr>"
  by (auto simp: handlePageInputSubmit_def)

lemma step_submit:
  "paginationShown games st \<Longrightarrow>
   step games st SubmitPageInput = Some (handlePageInputSubmit (totalPagesOf games st) st)"
  by (auto simp: step_def resetEffect_def depsChanged_def handlePageInputSubmit_def
      split: option.splits)

lemma dropWhile_ws:
  "list_all isWhiteSpace ws \<Longrightarrow> (r = [] \<or> \<not> isWhiteSpace (hd r)) \<Longrightarrow>
   dropWhile isWhiteSpace (ws @ r) = r"
  by (induction ws) (cases r; auto)+

lemma takeWhile_digits:
  "list_all isDigit ds \<Longrightarrow> (r = [] \<or> \<not> isDigit (hd r)) \<Longrightarrow>
   takeWhile isDigit (ds @ r) = ds"
  by (induction ds) (cases r; auto)+

lemma sign_not_ws: "\<not> isWhiteSpace CHR ''+''" "\<not> isWhiteSpace CHR ''-''"
  by (simp_all add: isWhiteSpace_def)

lemma parseInt_number:
  assumes ws: "list_all isWhiteSpace ws"
    and sg: "sg = [] \<or> sg = ''+'' \<or> sg = ''-''"
    and ds: "ds \<noteq> []" "list_all isDigit ds"
    and rest: "rest = [] \<or> \<not> isDigit (hd rest)"
  shows "parseInt (ws @ sg @ ds @ rest) = Some ((if sg = ''-'' then - 1 else 1) * digitsValue ds)"
proof -
  obtain d ds' where d: "ds = d # ds'"
    using ds(1) by (cases ds) auto
  have dd: "isDigit d"
    using ds(2) by (simp add: d)
  then have dplain: "\<not> isWhiteSpace d" "d \<noteq> CHR ''+''" "d \<noteq> CHR ''-''"
    using isDigit_plain [of d] by simp_all
  have tw: "takeWhile isDigit (ds @ rest) = ds"
    using ds(2) rest by (rule takeWhile_digits)
  have dw: "dropWhile isWhiteSpace (ws @ sg @ ds @ rest) = sg @ ds @ rest"
    using ws
  proof (rule dropWhile_ws)
    show "sg @ ds @ rest = [] \<or> \<not> isWhiteSpace (hd (sg @ ds @ rest))"
      using sg dplain(1) sign_not_ws by (auto simp: d)
  qed
  from sg show ?thesis
  proof (elim disjE)
    assume "sg = []"
    then show ?thesis
      unfolding parseInt_def dw using tw dplain ds(1) by (simp add: d Let_def)
  next
    assume "sg = ''+''"
    then show ?thesis
      unfolding parseInt_def dw using tw ds(1) by (simp add: Let_def)
  next
    assume "sg = ''-''"
    then show ?thesis
      unfolding parseInt_def dw using tw ds(1) by (simp add: Let_def)
  qed
qed

lemma parseInt_NaN_unsigned:
  assumes ws: "list_all isWhiteSpace ws"
    and rest: "rest = [] \<or> (\<not> isWhiteSpace (hd rest) \<and> \<not> isDigit (hd rest) \<and>
        hd rest \<noteq> CHR ''+'' \<and> hd rest \<noteq> CHR ''-'')"
  shows "parseInt (ws @ rest) = None"
proof -
  have dw: "dropWhile isWhiteSpace (ws @ rest) = rest"
    using ws rest by (intro dropWhile_ws) auto
  show ?thesis
    unfolding parseInt_def dw using rest by (cases rest) (auto simp: Let_def)
qed

lemma parseInt_NaN_signed:
  assumes ws: "list_all isWhiteSpace ws"
    and sg: "sc = CHR ''+'' \<or> sc = CHR ''-''"
    and rest: "rest = [] \<or> \<not> isDigit (hd rest)"
  shows "parseInt (ws @ sc # rest) = None"
proof -
  have dw: "dropWhile isWhiteSpace (ws @ sc # rest) = sc # rest"
    using ws sg sign_not_ws by (intro dropWhile_ws) auto
  show ?thesis
    unfolding parseInt_def dw using sg rest by (cases rest) (auto simp: Let_def)
qed

text \<open>
  C4. Submitting the page-jump form, with the number of the input field being what
  \<^verbatim>\<open>parseInt\<close> reads: after leading white space and one optional sign, the longest run
  of decimal digits, whatever follows it. When there is no such digit (\<^verbatim>\<open>NaN\<close>) or the
  number is below 1 or above the page count, the state is left as it is but for the
  input field, which becomes the empty string: the current page is unchanged and
  nothing else records the rejection. When the number is between 1 and the page count,
  the current page becomes that number and nothing else changes; the input field keeps
  its text. A non-empty string of decimal digits is read as its decimal value. The form
  is shown when the visible page is not empty, and then a submit transition is this
  handler (the reset effect does not run).
\<close>

theorem page_jump_submit:
  "((parseInt (pageInputValue st) = None \<or>
     (\<exists>n. parseInt (pageInputValue st) = Some n \<and> (n < 1 \<or> tp < n))) \<longrightarrow>
      handlePageInputSubmit tp st = st\<lparr>pageInputValue := []\<rparr>) \<and>
   (\<forall>n. parseInt (pageInputValue st) = Some n \<and> 1 \<le> n \<and> n \<le> tp \<longrightarrow>
      handlePageInputSubmit tp st = st\<lparr>currentPage := n\<rparr>) \<and>
   (pageInputValue st \<noteq> [] \<and> list_all isDigit (pageInputValue st) \<longrightarrow>
      parseInt (pageInputValue st) = Some (digitsValue (pageInputValue st))) \<and>
   (\<forall>ws sg ds rest.
      list_all isWhiteSpace ws \<and> (sg = [] \<or> sg = ''+'' \<or> sg = ''-'') \<and>
      ds \<noteq> [] \<and> list_all isDigit ds \<and> (rest = [] \<or> \<not> isDigit (hd rest)) \<longrightarrow>
      parseInt (ws @ sg @ ds @ rest) =
        Some ((if sg = ''-'' then - 1 else 1) * digitsValue ds)) \<and>
   (\<forall>ws rest.
      list_all isWhiteSpace ws \<and>
      (rest = [] \<or> (\<not> isWhiteSpace (hd rest) \<and> \<not> isDigit (hd rest) \<and>
         hd rest \<noteq> CHR ''+'' \<and> hd rest \<noteq> CHR ''-'')) \<longrightarrow>
      parseInt (ws @ rest) = None) \<and>
   (\<forall>ws sc rest.
      list_all isWhiteSpace ws \<and> (sc = CHR ''+'' \<or> sc = CHR ''-'') \<and>
      (rest = [] \<or> \<not> isDigit (hd rest)) \<longrightarrow>
      parseInt (ws @ sc # rest) = None) \<and>
   (paginationShown games st \<longrightarrow>
      step games st SubmitPageInput = Some (handlePageInputSubmit (totalPagesOf games st) st))"
proof (intro conjI allI impI)
  assume "parseInt (pageInputValue st) = None \<or>
     (\<exists>n. parseInt (pageInputValue st) = Some n \<and> (n < 1 \<or> tp < n))"
  then show "handlePageInputSubmit tp st = st\<lparr>pageInputValue := []\<rparr>"
    by (rule submit_rejected)
next
  fix n
  assume "parseInt (pageInputValue st) = Some n \<and> 1 \<le> n \<and> n \<le> tp"
  then show "handlePageInputSubmit tp st = st\<lparr>currentPage := n\<rparr>"
    by (simp add: submit_accepted)
next
  assume "pageInputValue st \<noteq> [] \<and> list_all isDigit (pageInputValue st)"
  then show "parseInt (pageInputValue st) = Some (digitsValue (pageInputValue st))"
    by (simp add: parseInt_digits)
next
  fix ws sg ds rest
  assume "list_all isWhiteSpace ws \<and> (sg = [] \<or> sg = ''+'' \<or> sg = ''-'') \<and>
      ds \<noteq> [] \<and> list_all isDigit ds \<and> (rest = [] \<or> \<not> isDigit (hd rest))"
  then show "parseInt (ws @ sg @ ds @ rest) =
      Some ((if sg = ''-'' then - 1 else 1) * digitsValue ds)"
    by (intro parseInt_number) simp_all
next
  fix ws rest
  assume "list_all isWhiteSpace ws \<and>
      (rest = [] \<or> (\<not> isWhiteSpace (hd rest) \<and> \<not> isDigit (hd rest) \<and>
         hd rest \<noteq> CHR ''+'' \<and> hd rest \<noteq> CHR ''-''))"
  then show "parseInt (ws @ rest) = None"
    by (intro parseInt_NaN_unsigned) simp_all
next
  fix ws sc rest
  assume "list_all isWhiteSpace ws \<and> (sc = CHR ''+'' \<or> sc = CHR ''-'') \<and>
      (rest = [] \<or> \<not> isDigit (hd rest))"
  then show "parseInt (ws @ sc # rest) = None"
    by (intro parseInt_NaN_signed) simp_all
next
  assume "paginationShown games st"
  then show "step games st SubmitPageInput =
      Some (handlePageInputSubmit (totalPagesOf games st) st)"
    by (rule step_submit)
qed

theorem page_jump_submit_witness:
  "handlePageInputSubmit 3 (initialState\<lparr>currentPage := 2, pageInputValue := ''abc''\<rparr>) =
     initialState\<lparr>currentPage := 2, pageInputValue := []\<rparr> \<and>
   handlePageInputSubmit 3 (initialState\<lparr>currentPage := 2, pageInputValue := ''0''\<rparr>) =
     initialState\<lparr>currentPage := 2, pageInputValue := []\<rparr> \<and>
   handlePageInputSubmit 3 (initialState\<lparr>currentPage := 2, pageInputValue := ''99''\<rparr>) =
     initialState\<lparr>currentPage := 2, pageInputValue := []\<rparr> \<and>
   handlePageInputSubmit 3 (initialState\<lparr>currentPage := 2, pageInputValue := ''3''\<rparr>) =
     initialState\<lparr>currentPage := 3, pageInputValue := ''3''\<rparr> \<and>
   parseInt '' -12abc'' = Some (- 12) \<and> parseInt '' +x'' = None \<and> parseInt ''abc'' = None \<and>
   paginationShown [\<lparr>title = ''a'', genres = [], comments = 1, image = [], link = []\<rparr>]
     (initialState\<lparr>pageInputValue := ''7''\<rparr>) \<and>
   step [\<lparr>title = ''a'', genres = [], comments = 1, image = [], link = []\<rparr>]
     (initialState\<lparr>pageInputValue := ''7''\<rparr>) SubmitPageInput = Some initialState"
proof -
  have p: "parseInt ''abc'' = None" "parseInt ''0'' = Some 0" "parseInt ''99'' = Some 99"
    "parseInt ''3'' = Some 3" "parseInt ''7'' = Some 7"
    by (simp_all add: parseInt_def isWhiteSpace_def isDigit_def digitVal_def digitsValue_def)
  have d: "list_all isWhiteSpace '' ''" "list_all isDigit ''12''" "\<not> isDigit CHR ''a''"
    "\<not> isDigit CHR ''x''" "digitsValue ''12'' = 12"
    by (simp_all add: isWhiteSpace_def isDigit_def digitVal_def digitsValue_def)
  have q1: "parseInt ('' '' @ ''-'' @ ''12'' @ ''abc'') = Some (- 12)"
    using page_jump_submit [THEN conjunct2, THEN conjunct2, THEN conjunct2, THEN conjunct1,
        rule_format, of "'' ''" "''-''" "''12''" "''abc''"] d
    by simp
  have q2: "parseInt ('' '' @ CHR ''+'' # ''x'') = None"
    using page_jump_submit [THEN conjunct2, THEN conjunct2, THEN conjunct2, THEN conjunct2,
        THEN conjunct2, THEN conjunct1, rule_format, of "'' ''" "CHR ''+''" "''x''"] d
    by simp
  have shown: "paginationShown [\<lparr>title = ''a'', genres = [], comments = 1, image = [], link = []\<rparr>]
     (initialState\<lparr>pageInputValue := ''7''\<rparr>)"
    and tp: "totalPagesOf [\<lparr>title = ''a'', genres = [], comments = 1, image = [], link = []\<rparr>]
     (initialState\<lparr>pageInputValue := ''7''\<rparr>) = 1"
    by (simp_all add: paginationShown_def currentGamesOf_def sortedOf_def initialState_def
        filteredGames_def matchesFilter_def sortedGames_def sort_cmp_def currentGames_def
        slice_def gamesPerPage_def totalPagesOf_def totalPages_div)
  show ?thesis
    using p q1 q2 shown tp
      page_jump_submit [of "initialState\<lparr>currentPage := 2, pageInputValue := ''abc''\<rparr>" 3]
      page_jump_submit [of "initialState\<lparr>currentPage := 2, pageInputValue := ''0''\<rparr>" 3]
      page_jump_submit [of "initialState\<lparr>currentPage := 2, pageInputValue := ''99''\<rparr>" 3]
      page_jump_submit [of "initialState\<lparr>currentPage := 2, pageInputValue := ''3''\<rparr>" 3]
      page_jump_submit [of "initialState\<lparr>pageInputValue := ''7''\<rparr>" 1
        "[\<lparr>title = ''a'', genres = [], comments = 1, image = [], link = []\<rparr>]"]
    by (simp add: initialState_def)
qed

text \<open>
  The text \<^verbatim>\<open>2abc\<close> is not a numeral, and submitting it with three pages moves from
  page 1 to page 2 and leaves the text in the input field; so does the submit
  transition of a state with thirteen items, which has two pages.
\<close>

theorem page_jump_prefix_counterexample:
  "\<not> list_all isDigit ''2abc'' \<and>
   handlePageInputSubmit 3 (initialState\<lparr>pageInputValue := ''2abc''\<rparr>) =
     initialState\<lparr>currentPage := 2, pageInputValue := ''2abc''\<rparr> \<and>
   currentPage (handlePageInputSubmit 3 (initialState\<lparr>pageInputValue := ''2abc''\<rparr>)) \<noteq>
     currentPage (initialState\<lparr>pageInputValue := ''2abc''\<rparr>) \<and>
   pageInputValue (handlePageInputSubmit 3 (initialState\<lparr>pageInputValue := ''2abc''\<rparr>)) \<noteq> [] \<and>
   step (map (\<lambda>n. \<lparr>title = ''a'', genres = ''x'', comments = n, image = [], link = []\<rparr>)
           [1, 2, 3, 4, 5, 6, 7, 8, 9, 10, 11, 12, 13])
     (initialState\<lparr>pageInputValue := ''2abc''\<rparr>) SubmitPageInput =
     Some (initialState\<lparr>currentPage := 2, pageInputValue := ''2abc''\<rparr>)"
proof -
  let ?games = "(map (\<lambda>n. \<lparr>title = ''a'', genres = ''x'', comments = n, image = [], link = []\<rparr>)
           [1, 2, 3, 4, 5, 6, 7, 8, 9, 10, 11, 12, 13])"
  let ?st = "initialState\<lparr>pageInputValue := ''2abc''\<rparr>"
  have p: "parseInt ''2abc'' = Some 2"
    by (simp add: parseInt_def isWhiteSpace_def isDigit_def digitVal_def digitsValue_def)
  have nd: "\<not> list_all isDigit ''2abc''"
    by (simp add: isDigit_def digitVal_def)
  have h: "handlePageInputSubmit tp ?st = initialState\<lparr>currentPage := 2, pageInputValue := ''2abc''\<rparr>"
    if "2 \<le> tp" for tp
    using that p by (simp add: handlePageInputSubmit_def initialState_def)
  have shown: "paginationShown ?games ?st"
    by (simp add: paginationShown_def currentGamesOf_def sortedOf_def initialState_def
        filteredGames_def matchesFilter_def
        sortedGames_def sort_cmp_def compareGames_def currentGames_def slice_def gamesPerPage_def)
  have f: "filteredGames ?games [] [] = ?games"
    by (simp add: filteredGames_def matchesFilter_def)
  have sel: "selectedTags ?st = []" "searchQuery ?st = []"
    by (simp_all add: initialState_def)
  have tp: "totalPagesOf ?games ?st = 2"
    unfolding totalPagesOf_eq sel f by simp
  have s: "step ?games ?st SubmitPageInput =
      Some (initialState\<lparr>currentPage := 2, pageInputValue := ''2abc''\<rparr>)"
    using step_submit [OF shown] h [of 2] by (simp only: tp)
  show ?thesis
    using nd h [of 3] s by (simp add: initialState_def)
qed

subsection \<open>Page-number display list\<close>

lemma pushRange_eq: "pushRange i hi acc = acc @ map Num [i..hi]"
proof (induction i hi acc rule: pushRange.induct)
  case (1 i hi acc)
  show ?case
  proof (cases "i \<le> hi")
    case True
    then show ?thesis using 1 by (subst pushRange.simps) (simp add: upto_rec1)
  next
    case False
    then show ?thesis by (subst pushRange.simps) simp
  qed
qed

lemma getPageNumbers_small: "tp \<le> 5 \<Longrightarrow> getPageNumbers tp cp = map Num [1..tp]"
  by (simp add: getPageNumbers_def maxPagesToShow_def pushRange_eq)

lemma getPageNumbers_42_7:
  "getPageNumbers 42 7 = [Num 1, Ellipsis, Num 6, Num 7, Num 8, Ellipsis, Num 42]"
  by (simp add: getPageNumbers_def pageWindow_def maxPagesToShow_def pushRange.simps)

text \<open>
  C6. With 42 pages and current page 7 the display list is 1, ellipsis, 6, 7, 8,
  ellipsis, 42. With at most 5 pages, whatever the current page, it is the page numbers
  1 up to the page count and holds no ellipsis.
\<close>

theorem getPageNumbers_examples:
  "getPageNumbers 42 7 = [Num 1, Ellipsis, Num 6, Num 7, Num 8, Ellipsis, Num 42] \<and>
   (\<forall>tp cp. tp \<le> 5 \<longrightarrow>
      getPageNumbers tp cp = map Num [1..tp] \<and> Ellipsis \<notin> set (getPageNumbers tp cp))"
  using getPageNumbers_42_7 by (auto simp: getPageNumbers_small)

theorem getPageNumbers_examples_witness:
  "(4::int) \<le> 5 \<and> getPageNumbers 4 3 = [Num 1, Num 2, Num 3, Num 4] \<and>
   getPageNumbers 0 1 = [] \<and> getPageNumbers 5 5 = [Num 1, Num 2, Num 3, Num 4, Num 5]"
proof -
  have "getPageNumbers 4 3 = map Num [1..4]" "getPageNumbers 0 1 = map Num [1..0]"
    "getPageNumbers 5 5 = map Num [1..5]"
    using getPageNumbers_examples by simp_all
  then show ?thesis by (simp add: upto.simps)
qed

text \<open>
  C7. What the window computation does for more than 5 pages and a current page
  between 1 and the page count. While the current page is at most the page count minus
  2, the window starts at \<open>max (currentPage - 1) 2\<close> and has three pages. On the last
  two pages the end is clamped to the page count minus 1 and the start is set to the
  end minus 1: the window has two pages, not three.
\<close>

theorem pageWindow_shape:
  "5 < tp \<Longrightarrow> 1 \<le> cp \<Longrightarrow> cp \<le> tp \<Longrightarrow>
     pageWindow tp cp =
       (if cp + 2 \<le> tp then (max (cp - 1) 2, max (cp - 1) 2 + 2) else (tp - 2, tp - 1))"
  by (auto simp: pageWindow_def maxPagesToShow_def Let_def min_def max_def)

theorem pageWindow_shape_witness:
  "(5::int) < 42 \<and> (1::int) \<le> 42 \<and> pageWindow 42 42 = (40, 41) \<and> pageWindow 42 7 = (6, 8) \<and>
   getPageNumbers 42 42 = [Num 1, Ellipsis, Num 40, Num 41, Num 42]"
proof -
  have "pageWindow 42 42 = (40, 41)" "pageWindow 42 7 = (6, 8)"
    using pageWindow_shape [of 42 42] pageWindow_shape [of 42 7] by simp_all
  moreover have "getPageNumbers 42 42 = [Num 1, Ellipsis, Num 40, Num 41, Num 42]"
    by (simp add: getPageNumbers_def pageWindow_def maxPagesToShow_def pushRange.simps)
  ultimately show ?thesis by simp
qed

subsection \<open>Tag toggle\<close>

text \<open>
  C9. Toggling a tag adds it when it is absent and removes it when it is present, and
  toggling the same tag twice gives back the original set of selected tags.
\<close>

theorem toggleTag_round_trip:
  "set (toggleTag (toggleTag prev tag) tag) = set prev \<and>
   (tag \<notin> set prev \<longrightarrow> set (toggleTag prev tag) = insert tag (set prev)) \<and>
   (tag \<in> set prev \<longrightarrow> set (toggleTag prev tag) = set prev - {tag})"
  by (auto simp: toggleTag_def)

theorem toggleTag_round_trip_witness:
  "toggleTag [''rpg''] ''action'' = [''rpg'', ''action''] \<and>
   toggleTag [''rpg'', ''action''] ''action'' = [''rpg''] \<and>
   set (toggleTag (toggleTag [''rpg''] ''action'') ''action'') = set [''rpg''] \<and>
   set (toggleTag (toggleTag [''action'', ''rpg''] ''action'') ''action'') = set [''action'', ''rpg'']"
  using toggleTag_round_trip [of "[''rpg'']" "''action''"]
    toggleTag_round_trip [of "[''action'', ''rpg'']" "''action''"]
  by (simp add: toggleTag_def)

subsection \<open>Tag list\<close>

lemma setFrom_fold_distinct:
  "distinct acc \<Longrightarrow> distinct (foldl (\<lambda>acc x. if x \<in> set acc then acc else acc @ [x]) acc xs)"
  by (induction xs arbitrary: acc) auto

lemma distinct_setFrom: "distinct (setFrom xs)"
  by (simp add: setFrom_def setFrom_fold_distinct)

lemma distinct_genres_list: "distinct (genres_list games)"
  by (simp add: genres_list_def distinct_setFrom)

lemma frequencyMap_fold:
  "distinct gs \<Longrightarrow> set gs \<inter> fst ` set acc = {} \<Longrightarrow>
   foldl (\<lambda>acc val. objSet acc val ((case map_of acc val of None \<Rightarrow> 0 | Some n \<Rightarrow> n) + 1)) acc gs =
   acc @ map (\<lambda>k. (k, 1)) gs"
proof (induction gs arbitrary: acc)
  case Nil
  then show ?case by simp
next
  case (Cons g gs)
  have g: "g \<notin> fst ` set acc"
    using Cons.prems(2) by auto
  then have m: "map_of acc g = None"
    by (simp add: map_of_eq_None_iff)
  have o: "objSet acc g 1 = acc @ [(g, 1)]"
    using g by (simp add: objSet_def)
  have "set gs \<inter> fst ` set (acc @ [(g, 1)]) = {}"
    using Cons.prems by auto
  with Cons.IH [of "acc @ [(g, 1)]"] Cons.prems(1) show ?case
    by (simp add: m o)
qed

lemma frequencyMap_distinct: "distinct gs \<Longrightarrow> frequencyMap gs = map (\<lambda>k. (k, 1)) gs"
  using frequencyMap_fold [of gs "[]"] by (simp add: frequencyMap_def)

lemma insertBy_all_equal:
  "\<forall>e \<in> set (x # ys). snd e = (c::int) \<Longrightarrow> insertBy (\<lambda>a b. snd b - snd a) x ys = x # ys"
  by (cases ys) auto

lemma sort_cmp_all_equal:
  "\<forall>e \<in> set es. snd e = (c::int) \<Longrightarrow> sort_cmp (\<lambda>a b. snd b - snd a) es = es"
proof (induction es)
  case Nil
  then show ?case by (simp add: sort_cmp_def)
next
  case (Cons e es)
  then have "sort_cmp (\<lambda>a b. snd b - snd a) es = es" by simp
  then show ?case
    using Cons.prems insertBy_all_equal [of e es c] by (simp add: sort_cmp_def)
qed

lemma slice_whole: "slice xs 0 (int (length xs)) = xs"
  by (simp add: slice_def)

lemma set_objectEntries: "set (objectEntries obj) = set obj"
  by (auto simp: objectEntries_def)

lemma sortedByFrequency_eq:
  "sortedByFrequency games = objectEntries (map (\<lambda>k. (k, 1)) (genres_list games))"
proof -
  have "\<forall>e \<in> set (objectEntries (map (\<lambda>k. (k, 1)) (genres_list games))). snd e = (1::int)"
    by (auto simp: set_objectEntries)
  then have "sort_cmp (\<lambda>a b. snd b - snd a)
      (objectEntries (map (\<lambda>k. (k, 1)) (genres_list games))) =
      objectEntries (map (\<lambda>k. (k, 1)) (genres_list games))"
    by (rule sort_cmp_all_equal)
  then show ?thesis
    by (simp add: sortedByFrequency_def frequencyMap_distinct distinct_genres_list)
qed

text \<open>
  C8. What the tag list is. The list \<^verbatim>\<open>genres\<close> comes out of a set, so each tag
  is in it once and every count in \<^verbatim>\<open>frequencyMap\<close> is 1; the sort by count then moves
  nothing. The tag list is the distinct tags in the order of \<^verbatim>\<open>Object.entries\<close>: by
  first occurrence in the data (array-index keys first), whatever the number of items
  a tag occurs in. In the instance below \<open>rpg\<close> is the genre of two items and
  \<open>action\<close> of one, and \<open>action\<close> comes first.
\<close>

theorem tags_ignore_frequency:
  "(\<forall>e \<in> set (sortedByFrequency games). snd e = 1) \<and>
   tags games = map fst (objectEntries (map (\<lambda>k. (k, 1)) (genres_list games)))"
  by (auto simp: tags_def slice_whole sortedByFrequency_eq set_objectEntries)

theorem tags_ignore_frequency_witness:
  "tags [\<lparr>title = ''A'', genres = ''Action'', comments = 5, image = [], link = []\<rparr>,
         \<lparr>title = ''B'', genres = ''RPG'', comments = 5, image = [], link = []\<rparr>,
         \<lparr>title = ''C'', genres = ''RPG'', comments = 5, image = [], link = []\<rparr>] =
     [''action'', ''rpg''] \<and>
   length (filter (\<lambda>g. includes_str (toLowerCase (genres g)) ''action'')
        [\<lparr>title = ''A'', genres = ''Action'', comments = 5, image = [], link = []\<rparr>,
         \<lparr>title = ''B'', genres = ''RPG'', comments = 5, image = [], link = []\<rparr>,
         \<lparr>title = ''C'', genres = ''RPG'', comments = 5, image = [], link = []\<rparr>]) = 1 \<and>
   length (filter (\<lambda>g. includes_str (toLowerCase (genres g)) ''rpg'')
        [\<lparr>title = ''A'', genres = ''Action'', comments = 5, image = [], link = []\<rparr>,
         \<lparr>title = ''B'', genres = ''RPG'', comments = 5, image = [], link = []\<rparr>,
         \<lparr>title = ''C'', genres = ''RPG'', comments = 5, image = [], link = []\<rparr>]) = 2"
proof -
  have "tags [\<lparr>title = ''A'', genres = ''Action'', comments = 5, image = [], link = []\<rparr>,
         \<lparr>title = ''B'', genres = ''RPG'', comments = 5, image = [], link = []\<rparr>,
         \<lparr>title = ''C'', genres = ''RPG'', comments = 5, image = [], link = []\<rparr>] =
     [''action'', ''rpg'']"
    unfolding tags_ignore_frequency [THEN conjunct2]
    by (simp add: genres_list_def setFrom_def splitCommaSpace_def toLowerCase_def lowerChar_def upperLetters_def lowerLetters_def
        objectEntries_def isArrayIndex_def isDigit_def digitVal_def)
  then show ?thesis
    by (simp add: toLowerCase_def lowerChar_def upperLetters_def lowerLetters_def)
qed

subsection \<open>The current page\<close>

lemma currentGames_Nil: "currentGames [] cp = []"
  by (simp add: currentGames_def slice_def)

lemma paginationShown_pages: "paginationShown games st \<Longrightarrow> 1 \<le> totalPagesOf games st"
proof -
  assume "paginationShown games st"
  then have "sortedOf games st \<noteq> []"
    by (auto simp: paginationShown_def currentGamesOf_def currentGames_Nil)
  then have "0 < length (sortedOf games st)"
    by simp
  then have "0 < length (filteredGames games (selectedTags st) (searchQuery st))"
    by (simp only: length_sortedOf)
  then show ?thesis
    unfolding totalPagesOf_eq by linarith
qed

lemma Num_in_getPageNumbers: "Num p \<in> set (getPageNumbers tp cp) \<Longrightarrow> 1 \<le> p \<and> p \<le> tp"
  by (auto simp: getPageNumbers_def pushRange_eq pageWindow_def maxPagesToShow_def Let_def
      split: if_splits)

lemma step_resets_page:
  assumes "step games st ev = Some st'"
    and "selectedTags st' \<noteq> selectedTags st \<or> searchQuery st' \<noteq> searchQuery st \<or>
         sortBy st' \<noteq> sortBy st"
  shows "currentPage st' = 1"
  using assms
  by (cases ev)
     (auto simp: step_def resetEffect_def depsChanged_def paginate_def handlePageInputSubmit_def
       Let_def split: if_splits option.splits pageItem.splits)

lemma step_keeps_range:
  assumes inv: "currentPage st = 1 \<or> (1 \<le> currentPage st \<and> currentPage st \<le> totalPagesOf games st)"
    and st: "step games st ev = Some st'"
  shows "currentPage st' = 1 \<or> (1 \<le> currentPage st' \<and> currentPage st' \<le> totalPagesOf games st')"
proof (cases ev)
  case (SetSortBy v)
  then show ?thesis using inv st
    by (auto simp: step_def resetEffect_def depsChanged_def totalPagesOf_eq split: if_splits)
next
  case (SetSearchQuery v)
  then show ?thesis using inv st
    by (auto simp: step_def resetEffect_def depsChanged_def totalPagesOf_eq split: if_splits)
next
  case (SetTagSearchQuery v)
  then show ?thesis using inv st
    by (auto simp: step_def resetEffect_def depsChanged_def totalPagesOf_eq split: if_splits)
next
  case (ToggleTag tag)
  then show ?thesis using st
    by (auto simp: step_def resetEffect_def depsChanged_def split: if_splits)
next
  case ClearFilters
  then show ?thesis using st
    by (auto simp: step_def resetEffect_def depsChanged_def split: if_splits)
next
  case PrevPage
  then show ?thesis using inv st
    by (auto simp: step_def resetEffect_def depsChanged_def paginate_def totalPagesOf_eq
        split: if_splits)
next
  case NextPage
  with st have shown: "paginationShown games st" and ne: "currentPage st \<noteq> totalPagesOf games st"
    and st': "st' = st\<lparr>currentPage := currentPage st + 1\<rparr>"
    by (auto simp: step_def resetEffect_def depsChanged_def paginate_def split: if_splits)
  have "1 \<le> totalPagesOf games st"
    using shown by (rule paginationShown_pages)
  with inv ne have "1 \<le> currentPage st + 1 \<and> currentPage st + 1 \<le> totalPagesOf games st"
    by auto
  then show ?thesis
    by (simp add: st' totalPagesOf_eq)
next
  case (ClickPage i)
  with st have "\<exists>p. i < length (getPageNumbers (totalPagesOf games st) (currentPage st)) \<and>
      getPageNumbers (totalPagesOf games st) (currentPage st) ! i = Num p \<and>
      st' = st\<lparr>currentPage := p\<rparr>"
    by (auto simp: step_def resetEffect_def depsChanged_def paginate_def Let_def
        split: if_splits pageItem.splits)
  then obtain p where p: "Num p \<in> set (getPageNumbers (totalPagesOf games st) (currentPage st))"
    and st': "st' = st\<lparr>currentPage := p\<rparr>"
    by (metis nth_mem)
  from p have "1 \<le> p \<and> p \<le> totalPagesOf games st"
    by (rule Num_in_getPageNumbers)
  then show ?thesis
    by (simp add: st' totalPagesOf_eq)
next
  case (SetPageInputValue v)
  then show ?thesis using inv st
    by (auto simp: step_def resetEffect_def depsChanged_def totalPagesOf_eq split: if_splits)
next
  case SubmitPageInput
  then show ?thesis using inv st
    by (auto simp: step_def resetEffect_def depsChanged_def totalPagesOf_eq
        handlePageInputSubmit_def split: if_splits option.splits)
qed

lemma reachable_range:
  "reachable games st \<Longrightarrow>
   currentPage st = 1 \<or> (1 \<le> currentPage st \<and> currentPage st \<le> totalPagesOf games st)"
proof (induction rule: reachable.induct)
  case reachable_init
  then show ?case by (simp add: initialState_def)
next
  case (reachable_step st ev st')
  then show ?case using step_keeps_range by blast
qed

lemma nonempty_pages:
  "filteredGames games (selectedTags st) (searchQuery st) \<noteq> [] \<Longrightarrow> 1 \<le> totalPagesOf games st"
proof -
  assume "filteredGames games (selectedTags st) (searchQuery st) \<noteq> []"
  then have "0 < length (filteredGames games (selectedTags st) (searchQuery st))" by simp
  then show ?thesis unfolding totalPagesOf_eq by linarith
qed

text \<open>
  C3. A transition is an event handler followed by the reset effect. After a transition
  in which the selected tags, the search query or the sort order are not what they were
  before, the current page is 1. In every state reachable from the initial state in
  which the filtered result is not empty, the current page lies between 1 and the page
  count of that state.
\<close>

theorem currentPage_invariants:
  "(step games st ev = Some st' \<and>
     (selectedTags st' \<noteq> selectedTags st \<or> searchQuery st' \<noteq> searchQuery st \<or>
      sortBy st' \<noteq> sortBy st) \<longrightarrow> currentPage st' = 1) \<and>
   (reachable games st \<and> filteredGames games (selectedTags st) (searchQuery st) \<noteq> [] \<longrightarrow>
      1 \<le> currentPage st \<and> currentPage st \<le> totalPagesOf games st)"
  using step_resets_page [of games st ev st'] reachable_range [of games st]
    nonempty_pages [of games st]
  by auto

theorem currentPage_invariants_witness:
  "step (map (\<lambda>n. \<lparr>title = ''a'', genres = ''x'', comments = n, image = [], link = []\<rparr>)
           [1, 2, 3, 4, 5, 6, 7, 8, 9, 10, 11, 12, 13])
     initialState NextPage = Some (initialState\<lparr>currentPage := 2\<rparr>) \<and>
   step (map (\<lambda>n. \<lparr>title = ''a'', genres = ''x'', comments = n, image = [], link = []\<rparr>)
           [1, 2, 3, 4, 5, 6, 7, 8, 9, 10, 11, 12, 13])
     (initialState\<lparr>currentPage := 2\<rparr>) (SetSearchQuery ''A'') =
     Some (initialState\<lparr>searchQuery := ''A''\<rparr>) \<and>
   reachable (map (\<lambda>n. \<lparr>title = ''a'', genres = ''x'', comments = n, image = [], link = []\<rparr>)
           [1, 2, 3, 4, 5, 6, 7, 8, 9, 10, 11, 12, 13]) (initialState\<lparr>currentPage := 2\<rparr>) \<and>
   totalPagesOf (map (\<lambda>n. \<lparr>title = ''a'', genres = ''x'', comments = n, image = [], link = []\<rparr>)
           [1, 2, 3, 4, 5, 6, 7, 8, 9, 10, 11, 12, 13]) (initialState\<lparr>currentPage := 2\<rparr>) = 2 \<and>
   currentPage (initialState\<lparr>currentPage := 2\<rparr>) \<le>
     totalPagesOf (map (\<lambda>n. \<lparr>title = ''a'', genres = ''x'', comments = n, image = [], link = []\<rparr>)
           [1, 2, 3, 4, 5, 6, 7, 8, 9, 10, 11, 12, 13]) (initialState\<lparr>currentPage := 2\<rparr>)"
proof -
  let ?games = "map (\<lambda>n. \<lparr>title = ''a'', genres = ''x'', comments = n, image = [], link = []\<rparr>)
           [1, 2, 3, 4, 5, 6, 7, 8, 9, 10, 11, 12, 13]"
  have f: "filteredGames ?games [] [] = ?games"
    by (simp add: filteredGames_def matchesFilter_def)
  have tp: "totalPagesOf ?games st = 2" if "selectedTags st = []" "searchQuery st = []" for st
    unfolding totalPagesOf_eq that f by simp
  have shown: "paginationShown ?games initialState"
    by (simp add: paginationShown_def currentGamesOf_def sortedOf_def initialState_def
        filteredGames_def matchesFilter_def
        sortedGames_def sort_cmp_def compareGames_def currentGames_def slice_def gamesPerPage_def)
  have s1: "step ?games initialState NextPage = Some (initialState\<lparr>currentPage := 2\<rparr>)"
    using shown tp [of initialState]
    by (simp add: step_def resetEffect_def depsChanged_def paginate_def initialState_def)
  have s2: "step ?games (initialState\<lparr>currentPage := 2\<rparr>) (SetSearchQuery ''A'') =
      Some (initialState\<lparr>searchQuery := ''A''\<rparr>)"
    by (simp add: step_def resetEffect_def depsChanged_def initialState_def)
  have r: "reachable ?games (initialState\<lparr>currentPage := 2\<rparr>)"
    using reachable_step [OF reachable_init s1] .
  have ne: "filteredGames ?games (selectedTags (initialState\<lparr>currentPage := 2\<rparr>))
      (searchQuery (initialState\<lparr>currentPage := 2\<rparr>)) \<noteq> []"
    unfolding initialState_def by (simp add: filteredGames_def matchesFilter_def)
  have t2: "totalPagesOf ?games (initialState\<lparr>currentPage := 2\<rparr>) = 2"
    by (rule tp) (simp_all add: initialState_def)
  have "currentPage (initialState\<lparr>searchQuery := ''A''\<rparr>) = 1"
    using currentPage_invariants
      [of ?games "initialState\<lparr>currentPage := 2\<rparr>" "SetSearchQuery ''A''"
        "initialState\<lparr>searchQuery := ''A''\<rparr>"] s2
    by (simp add: initialState_def)
  moreover have "currentPage (initialState\<lparr>currentPage := 2\<rparr>) \<le>
      totalPagesOf ?games (initialState\<lparr>currentPage := 2\<rparr>)"
    using currentPage_invariants [of ?games "initialState\<lparr>currentPage := 2\<rparr>"] r ne
    by blast
  ultimately show ?thesis
    using s1 s2 r t2 by simp
qed

end
